theory Spec2Isabelle
  imports Main
begin

section \<open>Python built-ins used by the page-range parser\<close>

text \<open>
  A Python \<open>str\<close> is modelled as a \<open>string\<close>, each \<open>char\<close> standing for the code
  point of the same number; code points above U+00FF are outside the model. Exceptions
  are values of \<open>py_error\<close>, carried in the left summand of a result;
  \<open>UnknownMode\<close> is not an exception but the error message and early return
  of the interleaving for a mode it does not know.
\<close>

datatype py_error = ValueError | IndexError | OSError | PdfReadError | RuntimeError | UnknownMode

text \<open>
  \<open>str.strip()\<close> removes the characters for which \<open>str.isspace()\<close> holds from both
  ends. Below U+0100 these are TAB, LF, VT, FF, CR, FS, GS, RS, US, SPACE, NEL and NBSP.
\<close>

definition isspace :: "char \<Rightarrow> bool" where
  "isspace c = (c \<in> set [CHR 0x09, CHR 0x0A, CHR 0x0B, CHR 0x0C, CHR 0x0D,
                          CHR 0x1C, CHR 0x1D, CHR 0x1E, CHR 0x1F, CHR 0x20,
                          CHR 0x85, CHR 0xA0])"

definition py_strip :: "string \<Rightarrow> string" where
  "py_strip s = rev (dropWhile isspace (rev (dropWhile isspace s)))"

text \<open>
  \<open>s.split(sep)\<close> for a one-character separator: the pieces between the occurrences
  of \<open>sep\<close>, empty pieces included, so the result is never the empty list. The
  characters of the piece being read are collected in \<open>cur\<close>, last one first.
\<close>

fun split_from :: "char \<Rightarrow> string \<Rightarrow> string \<Rightarrow> string list" where
  "split_from sep cur [] = [rev cur]"
| "split_from sep cur (c # cs) =
     (if c = sep then rev cur # split_from sep [] cs else split_from sep (c # cur) cs)"

definition py_split :: "char \<Rightarrow> string \<Rightarrow> string list" where
  "py_split sep s = split_from sep [] s"

text \<open>
  \<open>s.split(sep, 1)\<close>: at most one split, at the first occurrence of \<open>sep\<close>.
\<close>

definition py_split1 :: "char \<Rightarrow> string \<Rightarrow> string list" where
  "py_split1 sep s =
     (if sep \<in> set s
      then [takeWhile (\<lambda>c. c \<noteq> sep) s, drop 1 (dropWhile (\<lambda>c. c \<noteq> sep) s)]
      else [s])"

text \<open>
  \<open>int(s)\<close> in base ten: optional white space, an optional sign, decimal digits that
  may be separated by single underscores, optional white space. Anything else raises
  \<open>ValueError\<close>. The white space \<open>int\<close> accepts is narrower than that of \<open>strip\<close>: the
  four separators FS, GS, RS, US are not part of it. The interpreter's optional limit on
  the number of digits of a literal is not modelled.
\<close>

definition int_space :: "char \<Rightarrow> bool" where
  "int_space c = (c \<in> set [CHR 0x09, CHR 0x0A, CHR 0x0B, CHR 0x0C, CHR 0x0D, CHR 0x20,
                            CHR 0x85, CHR 0xA0])"

definition digit_val :: "char \<Rightarrow> int option" where
  "digit_val c = map_of (zip ''0123456789'' [0, 1, 2, 3, 4, 5, 6, 7, 8, 9]) c"

fun digits_loop :: "string \<Rightarrow> int \<Rightarrow> py_error + int" where
  "digits_loop [] acc = Inr acc"
| "digits_loop [c] acc =
     (case digit_val c of None \<Rightarrow> Inl ValueError | Some v \<Rightarrow> Inr (acc * 10 + v))"
| "digits_loop (c # d # ds) acc =
     (if c = CHR ''_''
      then (case digit_val d of
              None \<Rightarrow> Inl ValueError
            | Some v \<Rightarrow> digits_loop ds (acc * 10 + v))
      else (case digit_val c of
              None \<Rightarrow> Inl ValueError
            | Some v \<Rightarrow> digits_loop (d # ds) (acc * 10 + v)))"

definition unsigned_int :: "string \<Rightarrow> py_error + int" where
  "unsigned_int s =
     (case s of
        [] \<Rightarrow> Inl ValueError
      | c # cs \<Rightarrow> (case digit_val c of
                     None \<Rightarrow> Inl ValueError
                   | Some v \<Rightarrow> digits_loop cs v))"

definition py_int :: "string \<Rightarrow> py_error + int" where
  "py_int s =
     (case rev (dropWhile int_space (rev (dropWhile int_space s))) of
        [] \<Rightarrow> Inl ValueError
      | c # cs \<Rightarrow>
          if c = CHR ''-'' then (case unsigned_int cs of Inl e \<Rightarrow> Inl e | Inr v \<Rightarrow> Inr (- v))
          else if c = CHR ''+'' then unsigned_int cs
          else unsigned_int (c # cs))"

text \<open>
  \<open>range(start, stop, step)\<close> as the list of the values it yields. A zero step raises
  in Python; the parser only passes 1 and -1.
\<close>

function py_range :: "int \<Rightarrow> int \<Rightarrow> int \<Rightarrow> int list" where
  "py_range i stop step =
     (if 0 < step \<and> i < stop then i # py_range (i + step) stop step
      else if step < 0 \<and> stop < i then i # py_range (i + step) stop step
      else [])"
  by pat_completeness auto
termination
  by (relation "measure (\<lambda>(i, stop, step). nat (if 0 < step then stop - i else i - stop))")
     auto

declare py_range.simps [simp del]

section \<open>parse_page_ranges (v1.2)\<close>

text \<open>
  The inner loop \<open>for v in range(...): if 1 <= v <= total_pages: indices.append(v - 1)\<close>.
\<close>

fun range_loop :: "int \<Rightarrow> int list \<Rightarrow> int list \<Rightarrow> int list" where
  "range_loop total_pages [] indices = indices"
| "range_loop total_pages (v # vs) indices =
     range_loop total_pages vs
       (if 1 \<le> v \<and> v \<le> total_pages then indices @ [v - 1] else indices)"

text \<open>
  The body of the loop over the stripped parts, as a step on \<open>indices\<close>. A
  \<open>ValueError\<close> of \<open>int\<close> is caught and the part is skipped (\<open>continue\<close>); the
  unpacking \<open>a, b = part.split("-", 1)\<close> is outside the \<open>try\<close> and raises
  \<open>ValueError\<close> unless the split has two pieces.
\<close>

definition part_step :: "int \<Rightarrow> string \<Rightarrow> int list \<Rightarrow> py_error + int list" where
  "part_step total_pages part indices =
     (if CHR ''-'' \<in> set part then
        (case py_split1 CHR ''-'' part of
           [a, b] \<Rightarrow>
             (case py_int a of
                Inl e \<Rightarrow> Inr indices
              | Inr start \<Rightarrow>
                  (case py_int b of
                     Inl e \<Rightarrow> Inr indices
                   | Inr end \<Rightarrow>
                       (let step = (if start \<le> end then 1 else - 1)
                        in Inr (range_loop total_pages (py_range start (end + step) step)
                                  indices))))
         | _ \<Rightarrow> Inl ValueError)
      else
        (case py_int part of
           Inl e \<Rightarrow> Inr indices
         | Inr v \<Rightarrow> Inr (if 1 \<le> v \<and> v \<le> total_pages then indices @ [v - 1] else indices)))"

fun parts_loop :: "int \<Rightarrow> string list \<Rightarrow> int list \<Rightarrow> py_error + int list" where
  "parts_loop total_pages [] indices = Inr indices"
| "parts_loop total_pages (part # rest) indices =
     (case part_step total_pages part indices of
        Inl e \<Rightarrow> Inl e
      | Inr indices' \<Rightarrow> parts_loop total_pages rest indices')"

text \<open>The final loop: \<open>if i not in seen: seen.add(i); out.append(i)\<close>.\<close>

fun dedup_loop :: "int list \<Rightarrow> int list \<Rightarrow> int set \<Rightarrow> int list" where
  "dedup_loop [] out seen = out"
| "dedup_loop (i # is) out seen =
     (if i \<notin> seen then dedup_loop is (out @ [i]) (insert i seen)
      else dedup_loop is out seen)"

definition parse_page_ranges :: "string \<Rightarrow> int \<Rightarrow> py_error + int list" where
  "parse_page_ranges ranges_str total_pages =
     (if ranges_str = [] \<or> py_strip ranges_str = [] then Inr []
      else
        (case parts_loop total_pages (map py_strip (py_split CHR '','' ranges_str)) [] of
           Inl e \<Rightarrow> Inl e
         | Inr indices \<Rightarrow> Inr (dedup_loop indices [] {})))"

section \<open>parse_page_ranges (the OLD file)\<close>

text \<open>
  The function of the older source file, translated on its own from that file. The
  built-ins are shared; the three loops are translated again.
\<close>

fun range_loop_old :: "int \<Rightarrow> int list \<Rightarrow> int list \<Rightarrow> int list" where
  "range_loop_old total_pages [] indices = indices"
| "range_loop_old total_pages (v # vs) indices =
     range_loop_old total_pages vs
       (if 1 \<le> v \<and> v \<le> total_pages then indices @ [v - 1] else indices)"

definition part_step_old :: "int \<Rightarrow> string \<Rightarrow> int list \<Rightarrow> py_error + int list" where
  "part_step_old total_pages part indices =
     (if CHR ''-'' \<in> set part then
        (case py_split1 CHR ''-'' part of
           [a, b] \<Rightarrow>
             (case py_int a of
                Inl e \<Rightarrow> Inr indices
              | Inr start \<Rightarrow>
                  (case py_int b of
                     Inl e \<Rightarrow> Inr indices
                   | Inr end \<Rightarrow>
                       (let step = (if start \<le> end then 1 else - 1)
                        in Inr (range_loop_old total_pages (py_range start (end + step) step)
                                  indices))))
         | _ \<Rightarrow> Inl ValueError)
      else
        (case py_int part of
           Inl e \<Rightarrow> Inr indices
         | Inr v \<Rightarrow> Inr (if 1 \<le> v \<and> v \<le> total_pages then indices @ [v - 1] else indices)))"

fun parts_loop_old :: "int \<Rightarrow> string list \<Rightarrow> int list \<Rightarrow> py_error + int list" where
  "parts_loop_old total_pages [] indices = Inr indices"
| "parts_loop_old total_pages (part # rest) indices =
     (case part_step_old total_pages part indices of
        Inl e \<Rightarrow> Inl e
      | Inr indices' \<Rightarrow> parts_loop_old total_pages rest indices')"

fun dedup_loop_old :: "int list \<Rightarrow> int list \<Rightarrow> int set \<Rightarrow> int list" where
  "dedup_loop_old [] out seen = out"
| "dedup_loop_old (i # is) out seen =
     (if i \<notin> seen then dedup_loop_old is (out @ [i]) (insert i seen)
      else dedup_loop_old is out seen)"

definition parse_page_ranges_old :: "string \<Rightarrow> int \<Rightarrow> py_error + int list" where
  "parse_page_ranges_old ranges_str total_pages =
     (if ranges_str = [] \<or> py_strip ranges_str = [] then Inr []
      else
        (case parts_loop_old total_pages (map py_strip (py_split CHR '','' ranges_str)) [] of
           Inl e \<Rightarrow> Inl e
         | Inr indices \<Rightarrow> Inr (dedup_loop_old indices [] {})))"

section \<open>The reference semantics of the page-range language\<close>

text \<open>
  The specification's reading of an expression, written with list operations instead
  of loops: the expression is split on commas; each token yields its 1-based values, a
  pair \<open>a-b\<close> ascending when \<open>a \<le> b\<close> and descending otherwise; the values inside
  \<open>[1, total_pages]\<close> survive and are shifted to zero-based indices; of equal
  indices only the first occurrence is kept.

  The specification says that a token is an integer or a hyphenated pair and that a
  token failing integer parsing is skipped, but not how a token is read. \<open>read_token\<close>
  reads it as the code does: surrounding white space is ignored, the first hyphen
  separates the pair, and each side is read by \<open>int\<close>.
\<close>

datatype token = Single int | Pair int int | Malformed

definition read_token :: "string \<Rightarrow> token" where
  "read_token part =
     (if CHR ''-'' \<in> set part then
        (case py_int (takeWhile (\<lambda>c. c \<noteq> CHR ''-'') part) of
           Inl e \<Rightarrow> Malformed
         | Inr a \<Rightarrow>
             (case py_int (drop 1 (dropWhile (\<lambda>c. c \<noteq> CHR ''-'') part)) of
                Inl e \<Rightarrow> Malformed
              | Inr b \<Rightarrow> Pair a b))
      else (case py_int part of Inl e \<Rightarrow> Malformed | Inr v \<Rightarrow> Single v))"

fun token_values :: "token \<Rightarrow> int list" where
  "token_values (Single v) = [v]"
| "token_values (Pair a b) = (if a \<le> b then [a..b] else rev [b..a])"
| "token_values Malformed = []"

definition surviving :: "int \<Rightarrow> int list \<Rightarrow> int list" where
  "surviving total_pages vs = map (\<lambda>v. v - 1) (filter (\<lambda>v. 1 \<le> v \<and> v \<le> total_pages) vs)"

text \<open>
  \<open>remdups\<close> keeps the last occurrence of each element; on the reversed list that is
  the first one.
\<close>

definition dedup_first :: "'a list \<Rightarrow> 'a list" where
  "dedup_first xs = rev (remdups (rev xs))"

definition reference_parse :: "string \<Rightarrow> int \<Rightarrow> int list" where
  "reference_parse expr total_pages =
     dedup_first
       (concat (map (\<lambda>t. surviving total_pages (token_values (read_token (py_strip t))))
                  (py_split CHR '','' expr)))"

text \<open>
  For stating what happens to single tokens: \<open>join_commas\<close> writes tokens as one
  expression (\<open>",".join(tokens)\<close>), and a token is \<open>dropped\<close> for a page count when it
  is malformed or every value it names lies outside \<open>[1, total_pages]\<close>.
\<close>

fun join_commas :: "string list \<Rightarrow> string" where
  "join_commas [] = []"
| "join_commas [t] = t"
| "join_commas (t # u # ts) = t @ CHR '','' # join_commas (u # ts)"

definition dropped :: "int \<Rightarrow> string \<Rightarrow> bool" where
  "dropped total_pages t =
     (read_token (py_strip t) = Malformed
      \<or> list_all (\<lambda>v. v < 1 \<or> total_pages < v) (token_values (read_token (py_strip t))))"

section \<open>Interleaving two documents\<close>

text \<open>
  \<open>reader.pages[i]\<close>: the page list follows Python's sequence protocol, so a negative
  index counts from the end and an index out of range raises \<open>IndexError\<close>.
\<close>

definition py_index :: "'a list \<Rightarrow> int \<Rightarrow> py_error + 'a" where
  "py_index xs i =
     (if 0 \<le> i \<and> i < int (length xs) then Inr (xs ! nat i)
      else if i < 0 \<and> 0 \<le> int (length xs) + i then Inr (xs ! nat (int (length xs) + i))
      else Inl IndexError)"

text \<open>\<open>writer.add_page(reader.pages[i])\<close>, the writer being the list of its pages.\<close>

definition add_page_at :: "'a list \<Rightarrow> int \<Rightarrow> 'a list \<Rightarrow> py_error + 'a list" where
  "add_page_at pages i writer =
     (case py_index pages i of Inl e \<Rightarrow> Inl e | Inr p \<Rightarrow> Inr (writer @ [p]))"

definition is_odd :: "int \<Rightarrow> bool" where
  "is_odd i1 = (i1 mod 2 = 1)"

text \<open>A \<open>for\<close> loop whose body may raise: the first exception ends the loop.\<close>

fun for_loop :: "(int \<Rightarrow> 's \<Rightarrow> py_error + 's) \<Rightarrow> int list \<Rightarrow> 's \<Rightarrow> py_error + 's" where
  "for_loop body [] s = Inr s"
| "for_loop body (i # is) s =
     (case body i s of Inl e \<Rightarrow> Inl e | Inr s' \<Rightarrow> for_loop body is s')"

text \<open>
  Mode \<open>alternate\<close>. One half of the loop body,
  \<open>if ia < pa: writer.add_page(reader_a.pages[ia]); ia += 1\<close>, and the \<open>while\<close> loop.
\<close>

definition alternate_take :: "'a list \<Rightarrow> int \<Rightarrow> 'a list \<Rightarrow> py_error + int \<times> 'a list" where
  "alternate_take pages i writer =
     (if i < int (length pages)
      then (case add_page_at pages i writer of
              Inl e \<Rightarrow> Inl e
            | Inr writer' \<Rightarrow> Inr (i + 1, writer'))
      else Inr (i, writer))"

function alternate_loop ::
  "'a list \<Rightarrow> 'a list \<Rightarrow> int \<Rightarrow> int \<Rightarrow> 'a list \<Rightarrow> py_error + 'a list" where
  "alternate_loop A B ia ib writer =
     (if ia < int (length A) \<or> ib < int (length B) then
        (case alternate_take A ia writer of
           Inl e \<Rightarrow> Inl e
         | Inr (ia', writer') \<Rightarrow>
             (case alternate_take B ib writer' of
                Inl e \<Rightarrow> Inl e
              | Inr (ib', writer'') \<Rightarrow> alternate_loop A B ia' ib' writer''))
      else Inr writer)"
  by pat_completeness auto
termination
proof (relation "measure (\<lambda>(A, B, ia, ib, w). nat (int (length A) - ia) + nat (int (length B) - ib))")
  show "wf (measure (\<lambda>(A, B, ia, ib, w). nat (int (length A) - ia) + nat (int (length B) - ib)))"
    by simp
next
  fix A B :: "'a list" and ia ib :: int and writer :: "'a list" and x y :: "int \<times> 'a list"
    and ia' ib' :: int and writer' writer'' :: "'a list"
  assume "ia < int (length A) \<or> ib < int (length B)"
    and "alternate_take A ia writer = Inr x" and "(ia', writer') = x"
    and "alternate_take B ib writer' = Inr y" and "(ib', writer'') = y"
  then show "((A, B, ia', ib', writer''), (A, B, ia, ib, writer))
      \<in> measure (\<lambda>(A, B, ia, ib, w). nat (int (length A) - ia) + nat (int (length B) - ib))"
    by (auto simp: alternate_take_def split: if_splits sum.splits)
qed

declare alternate_loop.simps [simp del]

text \<open>The bodies of the \<open>for\<close> loops of the four parity modes.\<close>

definition a_odd_b_even_body :: "'a list \<Rightarrow> 'a list \<Rightarrow> int \<Rightarrow> 'a list \<Rightarrow> py_error + 'a list" where
  "a_odd_b_even_body A B i writer =
     (case (if i \<le> int (length A) \<and> is_odd i then add_page_at A (i - 1) writer
            else Inr writer) of
        Inl e \<Rightarrow> Inl e
      | Inr writer' \<Rightarrow>
          if i \<le> int (length B) \<and> \<not> is_odd i then add_page_at B (i - 1) writer'
          else Inr writer')"

definition a_even_b_odd_body :: "'a list \<Rightarrow> 'a list \<Rightarrow> int \<Rightarrow> 'a list \<Rightarrow> py_error + 'a list" where
  "a_even_b_odd_body A B i writer =
     (case (if i \<le> int (length A) \<and> \<not> is_odd i then add_page_at A (i - 1) writer
            else Inr writer) of
        Inl e \<Rightarrow> Inl e
      | Inr writer' \<Rightarrow>
          if i \<le> int (length B) \<and> is_odd i then add_page_at B (i - 1) writer'
          else Inr writer')"

definition a_odd_body :: "'a list \<Rightarrow> int \<Rightarrow> 'a list \<Rightarrow> py_error + 'a list" where
  "a_odd_body A i writer = (if is_odd i then add_page_at A (i - 1) writer else Inr writer)"

definition b_even_body :: "'a list \<Rightarrow> int \<Rightarrow> 'a list \<Rightarrow> py_error + 'a list" where
  "b_even_body B i writer = (if \<not> is_odd i then add_page_at B (i - 1) writer else Inr writer)"

text \<open>
  The pages \<open>_do_interleave\<close> hands to the writer, in order, from the page lists of the
  two readers: \<open>pa, pb = len(...)\<close>, \<open>ia = ib = start_from - 1\<close> and the chain of
  \<open>if mode == ...\<close>.
\<close>

definition interleave_pages :: "'a list \<Rightarrow> 'a list \<Rightarrow> string \<Rightarrow> int \<Rightarrow> py_error + 'a list" where
  "interleave_pages A B mode start_from =
     (let pa = int (length A); pb = int (length B) in
      if mode = ''alternate'' then
        alternate_loop A B (start_from - 1) (start_from - 1) []
      else if mode = ''a_odd_b_even'' then
        for_loop (a_odd_b_even_body A B) (py_range start_from (max pa pb + 1) 1) []
      else if mode = ''a_even_b_odd'' then
        for_loop (a_even_b_odd_body A B) (py_range start_from (max pa pb + 1) 1) []
      else if mode = ''a_odd'' then
        for_loop (a_odd_body A) (py_range start_from (pa + 1) 1) []
      else if mode = ''b_even'' then
        for_loop (b_even_body B) (py_range start_from (pb + 1) 1) []
      else Inl UnknownMode)"

text \<open>
  The specification's words for the two modes. \<open>lockstep\<close> takes the next page of the
  first list, if one remains, then the next page of the second, if one remains, until
  both are used up. \<open>parity_pick\<close> is what page number \<open>i\<close> contributes in mode
  \<open>a_odd_b_even\<close>. \<open>numbered\<close> pairs every page with its 1-based page number.
\<close>

fun lockstep :: "'a list \<Rightarrow> 'a list \<Rightarrow> 'a list" where
  "lockstep [] ys = ys"
| "lockstep (x # xs) [] = x # xs"
| "lockstep (x # xs) (y # ys) = x # y # lockstep xs ys"

definition parity_pick :: "'a list \<Rightarrow> 'a list \<Rightarrow> int \<Rightarrow> 'a list" where
  "parity_pick A B i =
     (if i \<le> int (length A) \<and> odd i then [A ! nat (i - 1)] else []) @
     (if i \<le> int (length B) \<and> even i then [B ! nat (i - 1)] else [])"

definition numbered :: "'a list \<Rightarrow> (int \<times> 'a) list" where
  "numbered xs = zip [1..int (length xs)] xs"

section \<open>Documents, the PDF library and the file system\<close>

text \<open>
  A document is what the program sees of a PDF file: its pages in order, the entries of
  its document information dictionary \<open>/Info\<close>, and its XMP metadata stream if it has
  one. A page is an opaque value; whatever belongs to the page, its rotation included,
  is part of that value. \<open>PdfReader\<close> gives a document, and a \<open>PdfWriter\<close> is a
  document under construction.
\<close>

type_synonym metadata = "string \<rightharpoonup> string"

record 'p document =
  pages :: "'p list"
  info :: metadata
  xmp :: "string option"

text \<open>
  The PDF library is not part of the repository. What the program depends on is kept as
  a parameter: the \<open>/Info\<close> entries a new writer starts with, and whether the two calls
  the sanitizer wraps in \<open>try\<close> raise. \<open>add_metadata\<close> merges the given entries into
  \<open>/Info\<close> as \<open>dict.update\<close> does.
\<close>

record pdf_lib =
  default_info :: metadata
  add_metadata_raises :: bool
  xmp_setter_raises :: bool

text \<open>
  The library the program imports: a new writer of pypdf carries the entry
  \<open>/Producer = pypdf\<close>, and both calls succeed.
\<close>

definition pypdf :: pdf_lib where
  "pypdf = \<lparr>default_info = [''/Producer'' \<mapsto> ''pypdf''],
            add_metadata_raises = False, xmp_setter_raises = False\<rparr>"

definition PdfWriter :: "pdf_lib \<Rightarrow> 'p document" where
  "PdfWriter lib = \<lparr>pages = [], info = default_info lib, xmp = None\<rparr>"

definition add_page :: "'p document \<Rightarrow> 'p \<Rightarrow> 'p document" where
  "add_page writer page = writer\<lparr>pages := pages writer @ [page]\<rparr>"

definition add_metadata :: "'p document \<Rightarrow> metadata \<Rightarrow> 'p document" where
  "add_metadata writer infos = writer\<lparr>info := info writer ++ infos\<rparr>"

text \<open>
  The state of the file system: what each path holds. A file is a PDF document or
  something \<open>PdfReader\<close> cannot read, such as a file the writer was cut off in. Opening
  a file for writing and writing it succeed, except where a fault is injected into the
  sanitizer: \<open>ReadFails\<close> makes its \<open>PdfReader\<close> raise, \<open>WriteFails\<close> makes
  \<open>w.write(f)\<close> raise after \<open>open(dst_pdf, "wb")\<close> has created or truncated the file.
\<close>

type_synonym path = string

datatype 'p file_content = Pdf "'p document" | Unreadable

type_synonym 'p fs = "path \<rightharpoonup> 'p file_content"

datatype fault = NoFault | ReadFails | WriteFails

definition os_replace :: "path \<Rightarrow> path \<Rightarrow> 'p fs \<Rightarrow> py_error + 'p fs" where
  "os_replace src dst fs =
     (case fs src of None \<Rightarrow> Inl OSError | Some f \<Rightarrow> Inr ((fs(src := None))(dst \<mapsto> f)))"

definition os_remove :: "path \<Rightarrow> 'p fs \<Rightarrow> py_error + 'p fs" where
  "os_remove p fs = (case fs p of None \<Rightarrow> Inl OSError | Some f \<Rightarrow> Inr (fs(p := None)))"

definition os_path_exists :: "path \<Rightarrow> 'p fs \<Rightarrow> bool" where
  "os_path_exists p fs = (fs p \<noteq> None)"

definition PdfReader :: "'p fs \<Rightarrow> path \<Rightarrow> py_error + 'p document" where
  "PdfReader fs p =
     (case fs p of
        None \<Rightarrow> Inl OSError
      | Some Unreadable \<Rightarrow> Inl PdfReadError
      | Some (Pdf d) \<Rightarrow> Inr d)"

definition safe_open_reader :: "'p fs \<Rightarrow> path \<Rightarrow> 'p document option" where
  "safe_open_reader fs p = (case PdfReader fs p of Inl e \<Rightarrow> None | Inr r \<Rightarrow> Some r)"

text \<open>
  \<open>s.replace(old, new)\<close> for a non-empty \<open>old\<close>: every occurrence, left to right.
\<close>

function str_replace :: "string \<Rightarrow> string \<Rightarrow> string \<Rightarrow> string" where
  "str_replace old new [] = []"
| "str_replace old new (c # cs) =
     (if old \<noteq> [] \<and> take (length old) (c # cs) = old
      then new @ str_replace old new (drop (length old) (c # cs))
      else c # str_replace old new cs)"
  by pat_completeness auto
termination
  by (relation "measure (\<lambda>(old, new, s). length s)") (auto simp: neq_Nil_conv)

text \<open>
  \<open>os.path\<close> for POSIX path syntax: \<open>basename\<close>, the first component of
  \<open>splitext\<close> (the extension starts at the last dot of the file name, unless only dots
  precede it) and \<open>join\<close> of two components.
\<close>

definition os_path_basename :: "path \<Rightarrow> string" where
  "os_path_basename p = rev (takeWhile (\<lambda>c. c \<noteq> CHR ''/'') (rev p))"

definition splitext_root :: "path \<Rightarrow> string" where
  "splitext_root p =
     (let name = os_path_basename p;
          stem = rev (drop 1 (dropWhile (\<lambda>c. c \<noteq> CHR ''.'') (rev name)))
      in if CHR ''.'' \<in> set name \<and> list_ex (\<lambda>c. c \<noteq> CHR ''.'') stem
         then rev (dropWhile (\<lambda>c. c \<noteq> CHR ''/'') (rev p)) @ stem
         else p)"

definition os_path_join :: "path \<Rightarrow> path \<Rightarrow> path" where
  "os_path_join a b =
     (if b \<noteq> [] \<and> hd b = CHR ''/'' then b
      else if a = [] \<or> last a = CHR ''/'' then a @ b
      else a @ ''/'' @ b)"

section \<open>sanitize_pdf_no_metadata\<close>

text \<open>
  The writer the function builds from the reader: a new writer, every page of the reader
  added in order, then \<open>try: w.add_metadata({})\<close> and \<open>try: w.xmp_metadata = None\<close>, each
  skipped when it raises.
\<close>

definition sanitized :: "pdf_lib \<Rightarrow> 'p document \<Rightarrow> 'p document" where
  "sanitized lib r =
     (let w = fold (\<lambda>p w. add_page w p) (pages r) (PdfWriter lib);
          w = (if add_metadata_raises lib then w else add_metadata w Map.empty);
          w = (if xmp_setter_raises lib then w else w\<lparr>xmp := None\<rparr>)
      in w)"

definition sanitize_pdf_no_metadata ::
  "pdf_lib \<Rightarrow> fault \<Rightarrow> path \<Rightarrow> path \<Rightarrow> 'p fs \<Rightarrow> (py_error + unit) \<times> 'p fs" where
  "sanitize_pdf_no_metadata lib flt src_pdf dst_pdf fs =
     (case PdfReader fs src_pdf of
        Inl e \<Rightarrow> (Inl e, fs)
      | Inr r \<Rightarrow>
          if flt = ReadFails then (Inl PdfReadError, fs)
          else if flt = WriteFails then (Inl OSError, fs(dst_pdf \<mapsto> Unreadable))
          else (Inr (), fs(dst_pdf \<mapsto> Pdf (sanitized lib r))))"

section \<open>The assembly operations\<close>

text \<open>
  The block every assembly operation runs after \<open>writer.write(f)\<close>:
  \<^verbatim>\<open>
  tmp2 = out_path.replace(".pdf", ".__tmp__.pdf")
  try:
      os.replace(out_path, tmp2)
      sanitize_pdf_no_metadata(tmp2, out_path)
      os.remove(tmp2)
  except Exception:
      try:
          if os.path.exists(tmp2):
              os.replace(tmp2, out_path)
      except Exception:
          pass
  \<close>
  \<open>sanitize_try\<close> is the \<open>try\<close> body, with the state it leaves when it raises.
\<close>

definition sanitize_try ::
  "pdf_lib \<Rightarrow> fault \<Rightarrow> path \<Rightarrow> path \<Rightarrow> 'p fs \<Rightarrow> (py_error + unit) \<times> 'p fs" where
  "sanitize_try lib flt out_path tmp2 fs =
     (case os_replace out_path tmp2 fs of
        Inl e \<Rightarrow> (Inl e, fs)
      | Inr fs1 \<Rightarrow>
          (case sanitize_pdf_no_metadata lib flt tmp2 out_path fs1 of
             (Inl e, fs2) \<Rightarrow> (Inl e, fs2)
           | (Inr u, fs2) \<Rightarrow>
               (case os_remove tmp2 fs2 of
                  Inl e \<Rightarrow> (Inl e, fs2)
                | Inr fs3 \<Rightarrow> (Inr (), fs3))))"

definition sanitize_output :: "pdf_lib \<Rightarrow> (path \<Rightarrow> fault) \<Rightarrow> path \<Rightarrow> 'p fs \<Rightarrow> 'p fs" where
  "sanitize_output lib faults out_path fs =
     (let tmp2 = str_replace ''.pdf'' ''.__tmp__.pdf'' out_path in
      case sanitize_try lib (faults out_path) out_path tmp2 fs of
        (Inr u, fs') \<Rightarrow> fs'
      | (Inl e, fs') \<Rightarrow>
          if os_path_exists tmp2 fs'
          then (case os_replace tmp2 out_path fs' of Inl e' \<Rightarrow> fs' | Inr fs'' \<Rightarrow> fs'')
          else fs')"

text \<open>
  What an operation reports: a warning box, a cancelled dialog, a source that could not
  be opened (\<open>safe_open_reader\<close> has shown the error), the success message, an error
  box of an \<open>except\<close> branch, or an exception that leaves the handler.
\<close>

datatype outcome = Warned | Cancelled | OpenFailed | Saved | ErrorShown py_error | Raised py_error

text \<open>\<open>writer.add_page(reader.pages[i])\<close> on a writer.\<close>

definition add_reader_page :: "'p document \<Rightarrow> int \<Rightarrow> 'p document \<Rightarrow> py_error + 'p document" where
  "add_reader_page reader i writer =
     (case py_index (pages reader) i of Inl e \<Rightarrow> Inl e | Inr p \<Rightarrow> Inr (add_page writer p))"

text \<open>
  \<open>merge_serial\<close>: \<open>items\<close> is the list box, \<open>out_path\<close> the answer of the save dialog
  (empty when cancelled).
\<close>

fun merge_loop :: "'p fs \<Rightarrow> path list \<Rightarrow> 'p document \<Rightarrow> 'p document option" where
  "merge_loop fs [] writer = Some writer"
| "merge_loop fs (p # rest) writer =
     (case safe_open_reader fs p of
        None \<Rightarrow> None
      | Some reader \<Rightarrow> merge_loop fs rest (fold (\<lambda>page w. add_page w page) (pages reader) writer))"

definition merge_serial ::
  "pdf_lib \<Rightarrow> (path \<Rightarrow> fault) \<Rightarrow> path list \<Rightarrow> path \<Rightarrow> 'p fs \<Rightarrow> outcome \<times> 'p fs" where
  "merge_serial lib faults items out_path fs =
     (if items = [] then (Warned, fs)
      else if out_path = [] then (Cancelled, fs)
      else (case merge_loop fs items (PdfWriter lib) of
              None \<Rightarrow> (OpenFailed, fs)
            | Some writer \<Rightarrow>
                (Saved, sanitize_output lib faults out_path (fs(out_path \<mapsto> Pdf writer)))))"

text \<open>
  \<open>_do_interleave\<close>: both readers are opened, the save dialog is asked, the pages are
  chosen by \<open>interleave_pages\<close>, written and sanitized. An unknown mode shows an error
  and returns before anything is written.
\<close>

definition do_interleave ::
  "pdf_lib \<Rightarrow> (path \<Rightarrow> fault) \<Rightarrow> path \<Rightarrow> path \<Rightarrow> string \<Rightarrow> int \<Rightarrow> path \<Rightarrow> 'p fs
     \<Rightarrow> outcome \<times> 'p fs" where
  "do_interleave lib faults path_a path_b mode start_from out_path fs =
     (case safe_open_reader fs path_a of
        None \<Rightarrow> (OpenFailed, fs)
      | Some reader_a \<Rightarrow>
          (case safe_open_reader fs path_b of
             None \<Rightarrow> (OpenFailed, fs)
           | Some reader_b \<Rightarrow>
               if out_path = [] then (Cancelled, fs)
               else (case interleave_pages (pages reader_a) (pages reader_b) mode start_from of
                       Inl e \<Rightarrow> (if e = UnknownMode then (ErrorShown e, fs) else (Raised e, fs))
                     | Inr ps \<Rightarrow>
                         (Saved, sanitize_output lib faults out_path
                                   (fs(out_path \<mapsto> Pdf ((PdfWriter lib)\<lparr>pages := ps\<rparr>)))))))"

text \<open>
  \<open>extract_pages_dialog\<close> and \<open>delete_pages_dialog\<close>: \<open>sel\<close> is the selection of the list
  box, \<open>ranges\<close> the answer of the text dialog (\<open>None\<close> when cancelled).
\<close>

definition extract_pages_dialog ::
  "pdf_lib \<Rightarrow> (path \<Rightarrow> fault) \<Rightarrow> path list \<Rightarrow> int list \<Rightarrow> string option \<Rightarrow> path \<Rightarrow> 'p fs
     \<Rightarrow> outcome \<times> 'p fs" where
  "extract_pages_dialog lib faults items sel ranges out_path fs =
     (if items = [] then (Warned, fs)
      else if length sel \<noteq> 1 then (Warned, fs)
      else (case py_index items (sel ! 0) of
        Inl e \<Rightarrow> (Raised e, fs)
      | Inr p \<Rightarrow>
      (case safe_open_reader fs p of
        None \<Rightarrow> (OpenFailed, fs)
      | Some reader \<Rightarrow>
      (case ranges of
        None \<Rightarrow> (Cancelled, fs)
      | Some ranges_str \<Rightarrow>
      (case parse_page_ranges ranges_str (int (length (pages reader))) of
        Inl e \<Rightarrow> (Raised e, fs)
      | Inr idxs \<Rightarrow>
          if idxs = [] then (Warned, fs)
          else if out_path = [] then (Cancelled, fs)
          else (case for_loop (add_reader_page reader) idxs (PdfWriter lib) of
                  Inl e \<Rightarrow> (Raised e, fs)
                | Inr writer \<Rightarrow>
                    (Saved, sanitize_output lib faults out_path
                              (fs(out_path \<mapsto> Pdf writer)))))))))"

definition delete_pages_dialog ::
  "pdf_lib \<Rightarrow> (path \<Rightarrow> fault) \<Rightarrow> path list \<Rightarrow> int list \<Rightarrow> string option \<Rightarrow> path \<Rightarrow> 'p fs
     \<Rightarrow> outcome \<times> 'p fs" where
  "delete_pages_dialog lib faults items sel ranges out_path fs =
     (if items = [] then (Warned, fs)
      else if length sel \<noteq> 1 then (Warned, fs)
      else (case py_index items (sel ! 0) of
        Inl e \<Rightarrow> (Raised e, fs)
      | Inr p \<Rightarrow>
      (case safe_open_reader fs p of
        None \<Rightarrow> (OpenFailed, fs)
      | Some reader \<Rightarrow>
      (case ranges of
        None \<Rightarrow> (Cancelled, fs)
      | Some ranges_str \<Rightarrow>
      (case parse_page_ranges ranges_str (int (length (pages reader))) of
        Inl e \<Rightarrow> (Raised e, fs)
      | Inr idxs \<Rightarrow>
          if set idxs = {} then (Warned, fs)
          else if out_path = [] then (Cancelled, fs)
          else (case for_loop
                       (\<lambda>i writer. if i \<notin> set idxs then add_reader_page reader i writer
                                    else Inr writer)
                       (py_range 0 (int (length (pages reader))) 1) (PdfWriter lib) of
                  Inl e \<Rightarrow> (Raised e, fs)
                | Inr writer \<Rightarrow>
                    (Saved, sanitize_output lib faults out_path
                              (fs(out_path \<mapsto> Pdf writer)))))))))"

text \<open>
  \<open>_do_rotate\<close>. \<open>page.rotate(d)\<close> belongs to the library and is the parameter
  \<open>rot\<close>; it may raise. A blank range expression selects every page:
  \<open>idxs = parse_page_ranges(ranges, total) if ranges.strip() else list(range(total))\<close>.
\<close>

definition rotate_page :: "(int \<Rightarrow> 'p \<Rightarrow> py_error + 'p) \<Rightarrow> 'p \<Rightarrow> int \<Rightarrow> py_error + 'p" where
  "rotate_page rot page degrees =
     (let d = degrees mod 360 in if d \<noteq> 0 then rot d page else Inr page)"

definition rotate_selection :: "string \<Rightarrow> int \<Rightarrow> py_error + int list" where
  "rotate_selection ranges total_pages =
     (if py_strip ranges \<noteq> [] then parse_page_ranges ranges total_pages
      else Inr (py_range 0 total_pages 1))"

definition rotate_body ::
  "(int \<Rightarrow> 'p \<Rightarrow> py_error + 'p) \<Rightarrow> 'p document \<Rightarrow> int list \<Rightarrow> int \<Rightarrow> int \<Rightarrow> 'p document
     \<Rightarrow> py_error + 'p document" where
  "rotate_body rot reader idxs degrees i writer =
     (case py_index (pages reader) i of
        Inl e \<Rightarrow> Inl e
      | Inr page \<Rightarrow>
          (case (if i \<in> set idxs then rotate_page rot page degrees else Inr page) of
             Inl e \<Rightarrow> Inl e
           | Inr page' \<Rightarrow> Inr (add_page writer page')))"

definition do_rotate ::
  "pdf_lib \<Rightarrow> (path \<Rightarrow> fault) \<Rightarrow> (int \<Rightarrow> 'p \<Rightarrow> py_error + 'p) \<Rightarrow> path \<Rightarrow> int \<Rightarrow> string \<Rightarrow> path
     \<Rightarrow> 'p fs \<Rightarrow> outcome \<times> 'p fs" where
  "do_rotate lib faults rot p degrees ranges out_path fs =
     (case safe_open_reader fs p of
        None \<Rightarrow> (OpenFailed, fs)
      | Some reader \<Rightarrow>
      (case rotate_selection ranges (int (length (pages reader))) of
        Inl e \<Rightarrow> (Raised e, fs)
      | Inr idxs \<Rightarrow>
          if out_path = [] then (Cancelled, fs)
          else (case for_loop (rotate_body rot reader idxs degrees)
                       (py_range 0 (int (length (pages reader))) 1) (PdfWriter lib) of
                  Inl e \<Rightarrow> (Raised e, fs)
                | Inr writer \<Rightarrow>
                    (Saved, sanitize_output lib faults out_path
                              (fs(out_path \<mapsto> Pdf writer))))))"

section \<open>Conversion of presentations\<close>

text \<open>
  \<open>convert_ppt_dialog\<close>. The office converter is outside the program: \<open>office\<close> gives,
  for an input path, the document the converter writes to its output path, or the error
  it raises. \<open>convert_ppt_item\<close> is the body of the loop for one input; the first
  exception ends the loop and is shown in an error box.
\<close>

definition convert_ppt_item ::
  "pdf_lib \<Rightarrow> (path \<Rightarrow> fault) \<Rightarrow> (path \<Rightarrow> py_error + 'p document) \<Rightarrow> path \<Rightarrow> path \<Rightarrow> 'p fs
     \<Rightarrow> (py_error + unit) \<times> 'p fs" where
  "convert_ppt_item lib faults office out_dir in_path fs =
     (let base = splitext_root (os_path_basename in_path);
          tmp_pdf = os_path_join out_dir (base @ ''.__tmp__.pdf'');
          final_pdf = os_path_join out_dir (base @ ''.pdf'')
      in case office in_path of
           Inl e \<Rightarrow> (Inl e, fs)
         | Inr d \<Rightarrow>
             (case sanitize_pdf_no_metadata lib (faults final_pdf) tmp_pdf final_pdf
                     (fs(tmp_pdf \<mapsto> Pdf d)) of
                (Inl e, fs2) \<Rightarrow> (Inl e, fs2)
              | (Inr u, fs2) \<Rightarrow>
                  (Inr (), case os_remove tmp_pdf fs2 of Inl e \<Rightarrow> fs2 | Inr fs3 \<Rightarrow> fs3)))"

fun convert_ppt_loop ::
  "pdf_lib \<Rightarrow> (path \<Rightarrow> fault) \<Rightarrow> (path \<Rightarrow> py_error + 'p document) \<Rightarrow> path \<Rightarrow> path list \<Rightarrow> 'p fs
     \<Rightarrow> (py_error + unit) \<times> 'p fs" where
  "convert_ppt_loop lib faults office out_dir [] fs = (Inr (), fs)"
| "convert_ppt_loop lib faults office out_dir (in_path # rest) fs =
     (case convert_ppt_item lib faults office out_dir in_path fs of
        (Inl e, fs') \<Rightarrow> (Inl e, fs')
      | (Inr u, fs') \<Rightarrow> convert_ppt_loop lib faults office out_dir rest fs')"

definition convert_ppt_dialog ::
  "pdf_lib \<Rightarrow> (path \<Rightarrow> fault) \<Rightarrow> (path \<Rightarrow> py_error + 'p document) \<Rightarrow> path list \<Rightarrow> path \<Rightarrow> 'p fs
     \<Rightarrow> outcome \<times> 'p fs" where
  "convert_ppt_dialog lib faults office paths out_dir fs =
     (if paths = [] then (Cancelled, fs)
      else if out_dir = [] then (Cancelled, fs)
      else (case convert_ppt_loop lib faults office out_dir paths fs of
              (Inl e, fs') \<Rightarrow> (ErrorShown e, fs')
            | (Inr u, fs') \<Rightarrow> (Saved, fs')))"

section \<open>Properties of the page-range parser\<close>

lemma range_loop_eq: "range_loop n vs acc = acc @ surviving n vs"
  by (induction vs arbitrary: acc) (simp_all add: surviving_def)

lemma py_range_up: "py_range i (b + 1) 1 = [i..b]"
proof (induction "nat (b + 1 - i)" arbitrary: i)
  case 0
  then have "\<not> i \<le> b" by simp
  then show ?case by (subst py_range.simps) simp
next
  case (Suc k)
  then have le: "i \<le> b" and k: "k = nat (b + 1 - (i + 1))" by simp_all
  from Suc.hyps(1)[OF k] le show ?case
    by (subst py_range.simps, subst upto.simps) simp
qed

lemma py_range_down: "py_range i (b - 1) (- 1) = rev [b..i]"
proof (induction "nat (i + 1 - b)" arbitrary: i)
  case 0
  then have "\<not> b \<le> i" by simp
  then show ?case by (subst py_range.simps) simp
next
  case (Suc k)
  then have le: "b \<le> i" and k: "k = nat (i - 1 + 1 - b)" by simp_all
  from Suc.hyps(1)[OF k] le show ?case
    by (subst py_range.simps) (simp add: upto_rec2)
qed

lemma range_step_eq:
  "range_loop n (py_range a (b + (if a \<le> b then 1 else - 1)) (if a \<le> b then 1 else - 1)) acc =
     acc @ surviving n (token_values (Pair a b))"
  by (simp add: range_loop_eq py_range_up py_range_down)

lemma part_step_eq:
  "part_step n part acc = Inr (acc @ surviving n (token_values (read_token part)))"
proof (cases "CHR ''-'' \<in> set part")
  case True
  let ?a = "takeWhile (\<lambda>c. c \<noteq> CHR ''-'') part"
  let ?b = "drop 1 (dropWhile (\<lambda>c. c \<noteq> CHR ''-'') part)"
  from True have sp: "py_split1 CHR ''-'' part = [?a, ?b]" by (simp add: py_split1_def)
  show ?thesis
  proof (cases "py_int ?a")
    case (Inl e)
    with True sp show ?thesis by (simp add: part_step_def read_token_def surviving_def)
  next
    case a: (Inr start)
    show ?thesis
    proof (cases "py_int ?b")
      case (Inl e)
      with True sp a show ?thesis by (simp add: part_step_def read_token_def surviving_def)
    next
      case (Inr stop)
      with True sp a show ?thesis
        using range_step_eq[of n start stop acc]
        by (simp add: part_step_def read_token_def Let_def del: token_values.simps)
    qed
  qed
next
  case False
  then show ?thesis
    by (cases "py_int part") (simp_all add: part_step_def read_token_def surviving_def)
qed

lemma parts_loop_eq:
  "parts_loop n parts acc =
     Inr (acc @ concat (map (\<lambda>p. surviving n (token_values (read_token p))) parts))"
  by (induction parts arbitrary: acc) (simp_all add: part_step_eq)

lemma remdups_drop_later: "x \<in> set bs \<Longrightarrow> remdups (as @ x # bs) = remdups (as @ bs)"
  by (induction as) auto

lemma dedup_loop_eq:
  "distinct out \<Longrightarrow> dedup_loop xs out (set out) = dedup_first (out @ xs)"
proof (induction xs arbitrary: out)
  case Nil
  then show ?case by (simp add: dedup_first_def distinct_remdups_id)
next
  case (Cons x xs)
  show ?case
  proof (cases "x \<in> set out")
    case True
    then show ?thesis
      using Cons.IH[OF Cons.prems] by (simp add: dedup_first_def remdups_drop_later)
  next
    case False
    with Cons.prems have "distinct (out @ [x])" by simp
    from Cons.IH[OF this] False show ?thesis by simp
  qed
qed

lemma strip_empty_all_space: "py_strip s = [] \<Longrightarrow> list_all isspace s"
proof -
  assume "py_strip s = []"
  then have all: "\<forall>x\<in>set (dropWhile isspace s). isspace x"
    by (simp add: py_strip_def)
  have "dropWhile isspace s = []"
  proof (rule ccontr)
    assume ne: "dropWhile isspace s \<noteq> []"
    then have "\<not> isspace (hd (dropWhile isspace s))" by (rule hd_dropWhile)
    moreover from ne have "hd (dropWhile isspace s) \<in> set (dropWhile isspace s)" by simp
    ultimately show False using all by blast
  qed
  then show ?thesis by (simp add: list_all_iff)
qed

lemma split_from_no_sep: "sep \<notin> set s \<Longrightarrow> split_from sep cur s = [rev cur @ s]"
  by (induction s arbitrary: cur) auto

lemma comma_not_space: "\<not> isspace CHR '',''"
  by (simp add: isspace_def)

lemma read_token_empty: "read_token [] = Malformed"
  by (simp add: read_token_def py_int_def)

lemma reference_parse_blank: "py_strip s = [] \<Longrightarrow> reference_parse s n = []"
proof -
  assume e: "py_strip s = []"
  from strip_empty_all_space[OF e] have "CHR '','' \<notin> set s"
    using comma_not_space by (auto simp: list_all_iff)
  then have "py_split CHR '','' s = [s]" by (simp add: py_split_def split_from_no_sep)
  then show ?thesis
    by (simp add: reference_parse_def e read_token_empty surviving_def dedup_first_def)
qed

lemma parse_page_ranges_eq: "parse_page_ranges s n = Inr (reference_parse s n)"
proof (cases "s = [] \<or> py_strip s = []")
  case True
  then have "py_strip s = []" by (auto simp: py_strip_def)
  then show ?thesis by (simp add: parse_page_ranges_def reference_parse_blank)
next
  case False
  then show ?thesis
    using dedup_loop_eq[of "[]"]
    by (simp add: parse_page_ranges_def parts_loop_eq reference_parse_def comp_def)
qed


lemmas parse_eval =
  parse_page_ranges_def py_strip_def isspace_def py_split_def part_step_def py_split1_def
  py_int_def int_space_def unsigned_int_def digit_val_def py_range.simps

lemma set_dedup_first: "set (dedup_first xs) = set xs"
  by (simp add: dedup_first_def)

lemma distinct_dedup_first: "distinct (dedup_first xs)"
  by (simp add: dedup_first_def)

lemma surviving_bounds: "i \<in> set (surviving n vs) \<Longrightarrow> 0 \<le> i \<and> i < n"
  by (auto simp: surviving_def)

lemma reference_parse_bounds: "i \<in> set (reference_parse s n) \<Longrightarrow> 0 \<le> i \<and> i < n"
  by (auto simp: reference_parse_def set_dedup_first dest: surviving_bounds)

lemma split_from_append:
  "split_from sep cur (a @ sep # b) = split_from sep cur a @ split_from sep [] b"
  by (induction a arbitrary: cur) simp_all

lemma py_split_append:
  "py_split sep (a @ sep # b) = py_split sep a @ py_split sep b"
  by (simp add: py_split_def split_from_append)


lemma distinct_reference_parse: "distinct (reference_parse s n)"
  by (simp add: reference_parse_def distinct_dedup_first)

lemma reference_parse_drop_empty:
  assumes "CHR '','' \<notin> set t"
    and "surviving n (token_values (read_token (py_strip t))) = []"
  shows "reference_parse (a @ '','' @ t @ '','' @ b) n = reference_parse (a @ '','' @ b) n"
proof -
  have "py_split CHR '','' t = [t]"
    using assms(1) by (simp add: py_split_def split_from_no_sep)
  then show ?thesis
    using assms(2) by (simp add: reference_parse_def py_split_append)
qed

lemma surviving_all_outside:
  "list_all (\<lambda>v. v < 1 \<or> n < v) vs \<Longrightarrow> surviving n vs = []"
  by (induction vs) (auto simp: surviving_def)

text \<open>
  Claim C1: for every expression and page count, \<open>parse_page_ranges\<close> returns what the
  reference semantics of section 4.1 gives: the comma-separated tokens, a pair \<open>a-b\<close>
  ascending when \<open>a \<le> b\<close> and descending otherwise, the values inside
  \<open>[1, total_pages]\<close> shifted to zero-based indices, duplicates removed keeping the first
  occurrence. The three examples of the specification are instances.
\<close>

theorem parse_page_ranges_reference:
  "parse_page_ranges expr total_pages = Inr (reference_parse expr total_pages)
   \<and> parse_page_ranges ''1-3,5,10'' 10 = Inr [0, 1, 2, 4, 9]
   \<and> parse_page_ranges ''5-3'' 10 = Inr [4, 3, 2]
   \<and> parse_page_ranges ''3,1-3'' 5 = Inr [2, 0, 1]"
proof (intro conjI)
  show "parse_page_ranges expr total_pages = Inr (reference_parse expr total_pages)"
    by (rule parse_page_ranges_eq)
  show "parse_page_ranges ''1-3,5,10'' 10 = Inr [0, 1, 2, 4, 9]"
    by (simp add: parse_eval)
  show "parse_page_ranges ''5-3'' 10 = Inr [4, 3, 2]"
    by (simp add: parse_eval)
  show "parse_page_ranges ''3,1-3'' 5 = Inr [2, 0, 1]"
    by (simp add: parse_eval)
qed

lemma py_split_join_commas:
  "ts \<noteq> [] \<Longrightarrow> list_all (\<lambda>t. CHR '','' \<notin> set t) ts \<Longrightarrow>
   py_split CHR '','' (join_commas ts) = ts"
proof (induction ts rule: join_commas.induct)
  case 1
  then show ?case by simp
next
  case (2 t)
  then show ?case by (simp add: py_split_def split_from_no_sep)
next
  case (3 t u ts)
  then have "py_split CHR '','' (join_commas (u # ts)) = u # ts" by simp
  moreover from 3 have "py_split CHR '','' t = [t]"
    by (simp add: py_split_def split_from_no_sep)
  ultimately show ?case by (simp add: py_split_append)
qed

lemma dropped_surviving:
  "dropped n t \<Longrightarrow> surviving n (token_values (read_token (py_strip t))) = []"
  using surviving_all_outside[of n "token_values (read_token (py_strip t))"]
  by (auto simp: dropped_def surviving_def)

lemma concat_map_filter_dropped:
  "concat (map (\<lambda>t. surviving n (token_values (read_token (py_strip t))))
            (filter (\<lambda>t. \<not> dropped n t) ts))
   = concat (map (\<lambda>t. surviving n (token_values (read_token (py_strip t)))) ts)"
  by (induction ts) (simp_all add: dropped_surviving)

lemma reference_parse_join_commas:
  assumes "list_all (\<lambda>t. CHR '','' \<notin> set t) ts"
  shows "reference_parse (join_commas ts) n =
     dedup_first (concat (map (\<lambda>t. surviving n (token_values (read_token (py_strip t)))) ts))"
proof (cases "ts = []")
  case True
  then show ?thesis
    by (simp add: reference_parse_def py_split_def py_strip_def read_token_empty surviving_def
          dedup_first_def)
next
  case False
  with assms show ?thesis by (simp add: reference_parse_def py_split_join_commas)
qed

lemma reference_parse_drop_tokens:
  assumes "list_all (\<lambda>t. CHR '','' \<notin> set t) ts"
  shows "reference_parse (join_commas ts) n =
     reference_parse (join_commas (filter (\<lambda>t. \<not> dropped n t) ts)) n"
proof -
  from assms have "list_all (\<lambda>t. CHR '','' \<notin> set t) (filter (\<lambda>t. \<not> dropped n t) ts)"
    by (simp add: list_all_iff)
  then show ?thesis
    using assms by (simp add: reference_parse_join_commas concat_map_filter_dropped)
qed

text \<open>
  Claim C9: for every string and page count the parser returns a list and raises nothing;
  every index of the list is at least 0 and below \<open>total_pages\<close>, and no index occurs
  twice. A token that is malformed, or whose values all lie outside \<open>[1, total_pages]\<close>,
  is dropped wherever it stands, first, last, alone or between others, and the rest of
  the expression is read as if the token were not there: the result is that of the
  expression without its dropped tokens, and it is made of what the other tokens give, in
  their order.
\<close>

theorem parse_page_ranges_safe:
  "(\<exists>idxs. parse_page_ranges s n = Inr idxs
            \<and> (\<forall>i\<in>set idxs. 0 \<le> i \<and> i < n) \<and> distinct idxs)
   \<and> (list_all (\<lambda>t. CHR '','' \<notin> set t) ts \<longrightarrow>
        parse_page_ranges (join_commas ts) n
          = parse_page_ranges (join_commas (filter (\<lambda>t. \<not> dropped n t) ts)) n
        \<and> parse_page_ranges (join_commas ts) n
          = Inr (dedup_first
                  (concat (map (\<lambda>t. surviving n (token_values (read_token (py_strip t))))
                             (filter (\<lambda>t. \<not> dropped n t) ts)))))
   \<and> (CHR '','' \<notin> set t
        \<and> (read_token (py_strip t) = Malformed
             \<or> list_all (\<lambda>v. v < 1 \<or> n < v) (token_values (read_token (py_strip t))))
      \<longrightarrow> parse_page_ranges (a @ '','' @ t @ '','' @ b) n
            = parse_page_ranges (a @ '','' @ b) n)"
proof (intro conjI impI)
  show "\<exists>idxs. parse_page_ranges s n = Inr idxs
            \<and> (\<forall>i\<in>set idxs. 0 \<le> i \<and> i < n) \<and> distinct idxs"
    using reference_parse_bounds[of _ s n]
    by (simp add: parse_page_ranges_eq distinct_reference_parse)
next
  assume c: "list_all (\<lambda>t. CHR '','' \<notin> set t) ts"
  then show "parse_page_ranges (join_commas ts) n
          = parse_page_ranges (join_commas (filter (\<lambda>t. \<not> dropped n t) ts)) n"
    using reference_parse_drop_tokens[of ts n] by (simp add: parse_page_ranges_eq)
  from c show "parse_page_ranges (join_commas ts) n
          = Inr (dedup_first
                  (concat (map (\<lambda>t. surviving n (token_values (read_token (py_strip t))))
                             (filter (\<lambda>t. \<not> dropped n t) ts))))"
    by (simp add: parse_page_ranges_eq reference_parse_join_commas concat_map_filter_dropped)
next
  assume h: "CHR '','' \<notin> set t
        \<and> (read_token (py_strip t) = Malformed
             \<or> list_all (\<lambda>v. v < 1 \<or> n < v) (token_values (read_token (py_strip t))))"
  then have "surviving n (token_values (read_token (py_strip t))) = []"
    using surviving_all_outside[of n "token_values (read_token (py_strip t))"]
    by (auto simp: surviving_def)
  with h show "parse_page_ranges (a @ '','' @ t @ '','' @ b) n
            = parse_page_ranges (a @ '','' @ b) n"
    using reference_parse_drop_empty[of t n a b] by (simp add: parse_page_ranges_eq)
qed

theorem parse_page_ranges_safe_witness:
  "parse_page_ranges ''3,1-3'' 5 = Inr [2, 0, 1]
   \<and> list_all (\<lambda>t. CHR '','' \<notin> set t) [''x7'', ''1'', ''99'', ''2'', ''4-y'']
   \<and> filter (\<lambda>t. \<not> dropped 5 t) [''x7'', ''1'', ''99'', ''2'', ''4-y''] = [''1'', ''2'']
   \<and> parse_page_ranges ''x7,1,99,2,4-y'' 5 = parse_page_ranges ''1,2'' 5
   \<and> parse_page_ranges ''x7,1,99,2,4-y'' 5 = Inr [0, 1]
   \<and> CHR '','' \<notin> set ''x7''
   \<and> read_token (py_strip ''x7'') = Malformed
   \<and> parse_page_ranges ''1,x7,2'' 5 = parse_page_ranges ''1,2'' 5"
proof -
  have c: "CHR '','' \<notin> set ''x7''" by simp
  have m: "read_token (py_strip ''x7'') = Malformed"
    by (simp add: read_token_def parse_eval)
  have l: "list_all (\<lambda>t. CHR '','' \<notin> set t) [''x7'', ''1'', ''99'', ''2'', ''4-y'']" by simp
  have f: "filter (\<lambda>t. \<not> dropped 5 t) [''x7'', ''1'', ''99'', ''2'', ''4-y''] = [''1'', ''2'']"
    by (simp add: dropped_def read_token_def parse_eval)
  have e: "parse_page_ranges ''3,1-3'' 5 = Inr [2, 0, 1]" by (simp add: parse_eval)
  have r: "parse_page_ranges ''1,2'' 5 = Inr [0, 1]" by (simp add: parse_eval)
  note inst = parse_page_ranges_safe[of "''3,1-3''" 5 "[''x7'', ''1'', ''99'', ''2'', ''4-y'']"
      "''x7''" "''1''" "''2''"]
  from inst l f
  have j: "parse_page_ranges ''x7,1,99,2,4-y'' 5 = parse_page_ranges ''1,2'' 5" by simp
  from inst c m
  have d: "parse_page_ranges ''1,x7,2'' 5 = parse_page_ranges ''1,2'' 5" by simp
  from c m l f e r j d show ?thesis by simp
qed

subsection \<open>The two versions of the parser\<close>

lemma range_loop_old_eq: "range_loop_old n vs acc = range_loop n vs acc"
  by (induction vs arbitrary: acc) simp_all

lemma range_loop_old_fun_eq: "range_loop_old = range_loop"
  by (intro ext) (rule range_loop_old_eq)

lemma part_step_old_eq: "part_step_old n part acc = part_step n part acc"
  unfolding part_step_old_def part_step_def range_loop_old_fun_eq ..

lemma parts_loop_old_eq: "parts_loop_old n parts acc = parts_loop n parts acc"
  by (induction parts arbitrary: acc) (simp_all add: part_step_old_eq split: sum.splits)

lemma dedup_loop_old_eq: "dedup_loop_old xs out seen = dedup_loop xs out seen"
  by (induction xs arbitrary: out seen) simp_all

lemma dedup_loop_old_fun_eq: "dedup_loop_old = dedup_loop"
  by (intro ext) (rule dedup_loop_old_eq)

lemma parts_loop_old_fun_eq: "parts_loop_old = parts_loop"
  by (intro ext) (rule parts_loop_old_eq)


text \<open>
  Claim C10: the parser of the OLD file and the parser of version 1.2 return the same
  result for every expression and every page count.
\<close>

theorem parse_page_ranges_old_equiv:
  "parse_page_ranges_old ranges_str total_pages = parse_page_ranges ranges_str total_pages"
  unfolding parse_page_ranges_old_def parse_page_ranges_def parts_loop_old_fun_eq
    dedup_loop_old_fun_eq ..

section \<open>Properties of the interleaving\<close>

lemma lockstep_Nil2 [simp]: "lockstep xs [] = xs"
  by (cases xs) simp_all

lemma py_index_in_range: "0 \<le> i \<Longrightarrow> i < int (length xs) \<Longrightarrow> py_index xs i = Inr (xs ! nat i)"
  by (simp add: py_index_def)

lemma add_page_at_in_range:
  "0 \<le> i \<Longrightarrow> i < int (length xs) \<Longrightarrow> add_page_at xs i w = Inr (w @ [xs ! nat i])"
  by (simp add: add_page_at_def py_index_in_range)

lemma alternate_take_eq:
  "0 \<le> i \<Longrightarrow>
   alternate_take xs i w =
     (if i < int (length xs) then Inr (i + 1, w @ [xs ! nat i]) else Inr (i, w))"
  by (simp add: alternate_take_def add_page_at_in_range)

lemma drop_cons_nth: "0 \<le> i \<Longrightarrow> i < int (length xs) \<Longrightarrow>
   drop (nat i) xs = xs ! nat i # drop (nat (i + 1)) xs"
  by (simp add: Cons_nth_drop_Suc nat_add_distrib)

lemma drop_nil_int: "0 \<le> i \<Longrightarrow> \<not> i < int (length xs) \<Longrightarrow> drop (nat i) xs = []"
  by simp

lemma alternate_loop_eq:
  "0 \<le> ia \<Longrightarrow> 0 \<le> ib \<Longrightarrow>
   alternate_loop A B ia ib w = Inr (w @ lockstep (drop (nat ia) A) (drop (nat ib) B))"
proof (induction A B ia ib w rule: alternate_loop.induct)
  case (1 A B ia ib w)
  note ia = \<open>0 \<le> ia\<close> and ib = \<open>0 \<le> ib\<close>
  consider (both) "ia < int (length A)" "ib < int (length B)"
    | (onlyA) "ia < int (length A)" "\<not> ib < int (length B)"
    | (onlyB) "\<not> ia < int (length A)" "ib < int (length B)"
    | (none) "\<not> ia < int (length A)" "\<not> ib < int (length B)"
    by blast
  then show ?case
  proof cases
    case both
    have ih: "alternate_loop A B (ia + 1) (ib + 1) (w @ [A ! nat ia] @ [B ! nat ib]) =
        Inr ((w @ [A ! nat ia] @ [B ! nat ib]) @
             lockstep (drop (nat (ia + 1)) A) (drop (nat (ib + 1)) B))"
      using "1.IH"[of "(ia + 1, w @ [A ! nat ia])" "ia + 1" "w @ [A ! nat ia]"
                      "(ib + 1, w @ [A ! nat ia] @ [B ! nat ib])" "ib + 1"
                      "w @ [A ! nat ia] @ [B ! nat ib]"]
        both ia ib by (simp add: alternate_take_eq)
    show ?thesis
      using both ia ib ih
      by (subst alternate_loop.simps)
         (simp add: alternate_take_eq drop_cons_nth[of ia A] drop_cons_nth[of ib B])
  next
    case onlyA
    have ih: "alternate_loop A B (ia + 1) ib (w @ [A ! nat ia]) =
        Inr ((w @ [A ! nat ia]) @ lockstep (drop (nat (ia + 1)) A) (drop (nat ib) B))"
      using "1.IH"[of "(ia + 1, w @ [A ! nat ia])" "ia + 1" "w @ [A ! nat ia]"
                      "(ib, w @ [A ! nat ia])" "ib" "w @ [A ! nat ia]"]
        onlyA ia ib by (simp add: alternate_take_eq)
    show ?thesis
      using onlyA ia ib ih
      by (subst alternate_loop.simps)
         (simp add: alternate_take_eq drop_cons_nth[of ia A] drop_nil_int[of ib B])
  next
    case onlyB
    have ih: "alternate_loop A B ia (ib + 1) (w @ [B ! nat ib]) =
        Inr ((w @ [B ! nat ib]) @ lockstep (drop (nat ia) A) (drop (nat (ib + 1)) B))"
      using "1.IH"[of "(ia, w)" "ia" "w" "(ib + 1, w @ [B ! nat ib])" "ib + 1" "w @ [B ! nat ib]"]
        onlyB ia ib by (simp add: alternate_take_eq)
    show ?thesis
      using onlyB ia ib ih
      by (subst alternate_loop.simps)
         (simp add: alternate_take_eq drop_cons_nth[of ib B] drop_nil_int[of ia A])
  next
    case none
    then show ?thesis
      using ia ib by (subst alternate_loop.simps) simp
  qed
qed

lemma set_lockstep: "set (lockstep xs ys) = set xs \<union> set ys"
  by (induction xs ys rule: lockstep.induct) auto

lemma drop_upto: "drop k [i..j] = [i + int k..j]"
proof (induction k arbitrary: i)
  case 0
  then show ?case by simp
next
  case (Suc k)
  show ?case
  proof (cases "i \<le> j")
    case True
    have e: "i + 1 + int k = i + int (Suc k)" by simp
    from True have "drop (Suc k) [i..j] = drop k [i + 1..j]" by (simp add: upto_rec1)
    then show ?thesis by (simp only: Suc e)
  next
    case False
    then show ?thesis by simp
  qed
qed

lemma numbered_drop_lower:
  "(i, p) \<in> set (drop k (numbered xs)) \<Longrightarrow> 1 + int k \<le> i"
proof -
  assume "(i, p) \<in> set (drop k (numbered xs))"
  then have "i \<in> set [1 + int k..int (length xs)]"
    by (auto simp: numbered_def drop_zip drop_upto dest: set_zip_leftD)
  then show ?thesis by simp
qed


lemma is_odd_iff: "is_odd i \<longleftrightarrow> odd i"
  by (simp add: is_odd_def odd_iff_mod_2_eq_one)

lemma a_odd_b_even_body_eq:
  "1 \<le> i \<Longrightarrow> a_odd_b_even_body A B i w = Inr (w @ parity_pick A B i)"
  by (simp add: a_odd_b_even_body_def parity_pick_def is_odd_iff add_page_at_in_range)

lemma for_loop_a_odd_b_even:
  "list_all (\<lambda>i. 1 \<le> i) is \<Longrightarrow>
   for_loop (a_odd_b_even_body A B) is w = Inr (w @ concat (map (parity_pick A B) is))"
  by (induction "is" arbitrary: w) (simp_all add: a_odd_b_even_body_eq)

lemmas interleave_eval =
  interleave_pages_def py_range.simps alternate_loop.simps alternate_take_def add_page_at_def
  py_index_def is_odd_def a_odd_b_even_body_def a_even_b_odd_body_def a_odd_body_def
  b_even_body_def

lemma interleave_pages_alternate:
  "1 \<le> start_from \<Longrightarrow>
   interleave_pages A B ''alternate'' start_from =
     Inr (lockstep (drop (nat (start_from - 1)) A) (drop (nat (start_from - 1)) B))"
  using alternate_loop_eq[of "start_from - 1" "start_from - 1" A B "[]"]
  by (simp add: interleave_pages_def)

lemma numbered_lockstep_lower:
  assumes "1 \<le> start_from"
    and "x \<in> set (lockstep (drop (nat (start_from - 1)) (numbered A))
                      (drop (nat (start_from - 1)) (numbered B)))"
  shows "start_from \<le> fst x"
proof -
  obtain i p where x: "x = (i, p)" by (cases x)
  from assms(2) have "(i, p) \<in> set (drop (nat (start_from - 1)) (numbered A)) \<or>
      (i, p) \<in> set (drop (nat (start_from - 1)) (numbered B))"
    by (simp add: set_lockstep x)
  then have "1 + int (nat (start_from - 1)) \<le> i"
    by (auto dest: numbered_drop_lower)
  with assms(1) show ?thesis by (simp add: x)
qed

text \<open>
  Claim C2: for \<open>start_from \<ge> 1\<close>, mode \<open>alternate\<close> writes the pages of A and B from
  page \<open>start_from\<close> on in lockstep, a page of A (if one remains) and then a page of B
  (if one remains), until both are used up; no page numbered below \<open>start_from\<close> is
  written. For 3 and 2 pages from page 1 the order is A1, B1, A2, B2, A3.
\<close>

theorem interleave_alternate:
  assumes "1 \<le> start_from"
  shows "interleave_pages A B ''alternate'' start_from =
           Inr (lockstep (drop (nat (start_from - 1)) A) (drop (nat (start_from - 1)) B))
       \<and> (case interleave_pages (numbered A) (numbered B) ''alternate'' start_from of
            Inl e \<Rightarrow> False
          | Inr out \<Rightarrow> \<forall>x\<in>set out. start_from \<le> fst x)
       \<and> interleave_pages [''A1'', ''A2'', ''A3''] [''B1'', ''B2''] ''alternate'' 1 =
           Inr [''A1'', ''B1'', ''A2'', ''B2'', ''A3'']"
proof (intro conjI)
  show "interleave_pages A B ''alternate'' start_from =
      Inr (lockstep (drop (nat (start_from - 1)) A) (drop (nat (start_from - 1)) B))"
    using assms by (rule interleave_pages_alternate)
next
  have "\<forall>x\<in>set (lockstep (drop (nat (start_from - 1)) (numbered A))
                      (drop (nat (start_from - 1)) (numbered B))). start_from \<le> fst x"
    using numbered_lockstep_lower[OF assms] by blast
  then show "case interleave_pages (numbered A) (numbered B) ''alternate'' start_from of
            Inl e \<Rightarrow> False
          | Inr out \<Rightarrow> \<forall>x\<in>set out. start_from \<le> fst x"
    by (simp only: interleave_pages_alternate[OF assms] sum.case)
next
  show "interleave_pages [''A1'', ''A2'', ''A3''] [''B1'', ''B2''] ''alternate'' 1 =
      Inr [''A1'', ''B1'', ''A2'', ''B2'', ''A3'']"
    by (simp add: interleave_eval)
qed

theorem interleave_alternate_witness:
  "(1::int) \<le> 2 \<and>
   interleave_pages [''A1'', ''A2'', ''A3''] [''B1'', ''B2''] ''alternate'' 2 =
     Inr [''A2'', ''B2'', ''A3'']"
  using interleave_alternate[of 2 "[''A1'', ''A2'', ''A3'']" "[''B1'', ''B2'']"]
  by simp

text \<open>
  Claim C3: for \<open>start_from \<ge> 1\<close>, mode \<open>a_odd_b_even\<close> goes through the page numbers
  \<open>i\<close> from \<open>start_from\<close> to \<open>max(len(A), len(B))\<close> in order and writes page \<open>i\<close> of A when
  \<open>i \<le> len(A)\<close> and \<open>i\<close> is odd, then page \<open>i\<close> of B when \<open>i \<le> len(B)\<close> and \<open>i\<close> is
  even, the parity being that of the 1-based page number. For 4 and 4 pages from page 1
  the order is A1, B2, A3, B4.
\<close>

theorem interleave_a_odd_b_even:
  assumes "1 \<le> start_from"
  shows "interleave_pages A B ''a_odd_b_even'' start_from =
           Inr (concat (map (parity_pick A B)
                  [start_from..max (int (length A)) (int (length B))]))
       \<and> interleave_pages [''A1'', ''A2'', ''A3'', ''A4''] [''B1'', ''B2'', ''B3'', ''B4'']
             ''a_odd_b_even'' 1 = Inr [''A1'', ''B2'', ''A3'', ''B4'']"
proof -
  have "list_all (\<lambda>i. 1 \<le> i) [start_from..max (int (length A)) (int (length B))]"
    using assms by (simp add: list_all_iff)
  then have "interleave_pages A B ''a_odd_b_even'' start_from =
      Inr (concat (map (parity_pick A B) [start_from..max (int (length A)) (int (length B))]))"
    by (simp add: interleave_pages_def py_range_up for_loop_a_odd_b_even)
  moreover have "interleave_pages [''A1'', ''A2'', ''A3'', ''A4''] [''B1'', ''B2'', ''B3'', ''B4'']
             ''a_odd_b_even'' 1 = Inr [''A1'', ''B2'', ''A3'', ''B4'']"
    by (simp add: interleave_eval)
  ultimately show ?thesis by simp
qed

theorem interleave_a_odd_b_even_witness:
  "(1::int) \<le> 2 \<and>
   interleave_pages [''A1'', ''A2'', ''A3''] [''B1'', ''B2'', ''B3'', ''B4''] ''a_odd_b_even'' 2 =
     Inr [''B2'', ''A3'', ''B4'']"
  using interleave_a_odd_b_even[of 2 "[''A1'', ''A2'', ''A3'']" "[''B1'', ''B2'', ''B3'', ''B4'']"]
  by (simp add: parity_pick_def)

section \<open>Properties of the sanitizer\<close>

lemma fold_add_page:
  "fold (\<lambda>p w. add_page w p) ps w = w\<lparr>pages := pages w @ ps\<rparr>"
  by (induction ps arbitrary: w) (simp_all add: add_page_def)

lemma sanitized_eq:
  "sanitized lib r = \<lparr>pages = pages r, info = default_info lib, xmp = None\<rparr>"
  by (simp add: sanitized_def fold_add_page PdfWriter_def add_metadata_def Let_def)

lemma sanitized_pages: "pages (sanitized lib r) = pages r"
  by (simp add: sanitized_eq)

lemma sanitized_info: "info (sanitized lib r) = default_info lib"
  by (simp add: sanitized_eq)

lemma sanitized_xmp: "xmp (sanitized lib r) = None"
  by (simp add: sanitized_eq)

lemma sanitize_pdf_no_metadata_ok:
  "fs src = Some (Pdf d) \<Longrightarrow>
   sanitize_pdf_no_metadata lib NoFault src dst fs = (Inr (), fs(dst \<mapsto> Pdf (sanitized lib d)))"
  by (simp add: sanitize_pdf_no_metadata_def PdfReader_def)

text \<open>
  Claim C4, at a concrete input: a two-page document with an author entry and an XMP
  stream is sanitized with the library the program imports. The pages arrive unchanged
  and in order, the author entry and the XMP stream are gone, but the output does carry a
  document information dictionary: the \<open>/Producer\<close> entry every new writer starts
  with, which \<open>add_metadata({})\<close> does not remove.
\<close>

theorem sanitize_leaves_producer:
  "(case sanitize_pdf_no_metadata pypdf NoFault ''in.pdf'' ''out.pdf''
           [''in.pdf'' \<mapsto> Pdf \<lparr>pages = [''p1'', ''p2''],
                                   info = [''/Author'' \<mapsto> ''A. N. Author''],
                                   xmp = Some ''xmp''\<rparr>] of
      (r, fs') \<Rightarrow>
        r = Inr ()
        \<and> fs' ''out.pdf'' =
            Some (Pdf \<lparr>pages = [''p1'', ''p2''], info = [''/Producer'' \<mapsto> ''pypdf''],
                       xmp = None\<rparr>))
   \<and> [''/Producer'' \<mapsto> ''pypdf''] \<noteq> (Map.empty :: metadata)"
  by (simp add: sanitize_pdf_no_metadata_def PdfReader_def sanitized_eq pypdf_def)

text \<open>
  Claim C8: sanitizing a sanitized document gives the same document again, page for page
  and with the same metadata state; run on files, the second pass writes the file the
  first pass wrote.
\<close>

theorem sanitize_idempotent:
  "sanitized lib (sanitized lib d) = sanitized lib d
   \<and> pages (sanitized lib (sanitized lib d)) = pages (sanitized lib d)
   \<and> pages (sanitized lib (sanitized lib d)) = pages d
   \<and> info (sanitized lib (sanitized lib d)) = info (sanitized lib d)
   \<and> xmp (sanitized lib (sanitized lib d)) = xmp (sanitized lib d)
   \<and> (fs src = Some (Pdf d) \<longrightarrow>
        (case sanitize_pdf_no_metadata lib NoFault src mid fs of
           (r1, fs1) \<Rightarrow>
             (case sanitize_pdf_no_metadata lib NoFault mid dst fs1 of
                (r2, fs2) \<Rightarrow>
                  r1 = Inr () \<and> r2 = Inr ()
                  \<and> fs1 mid = Some (Pdf (sanitized lib d))
                  \<and> fs2 dst = fs1 mid)))"
  by (simp add: sanitized_eq sanitize_pdf_no_metadata_def PdfReader_def)

theorem sanitize_idempotent_witness:
  "[''a.pdf'' \<mapsto> Pdf \<lparr>pages = [''p1'', ''p2''], info = [''/Author'' \<mapsto> ''A''], xmp = Some ''x''\<rparr>]
      ''a.pdf''
     = Some (Pdf \<lparr>pages = [''p1'', ''p2''], info = [''/Author'' \<mapsto> ''A''], xmp = Some ''x''\<rparr>)
   \<and> (case sanitize_pdf_no_metadata pypdf NoFault ''a.pdf'' ''b.pdf''
              [''a.pdf'' \<mapsto> Pdf \<lparr>pages = [''p1'', ''p2''], info = [''/Author'' \<mapsto> ''A''],
                                     xmp = Some ''x''\<rparr>] of
         (r1, fs1) \<Rightarrow>
           (case sanitize_pdf_no_metadata pypdf NoFault ''b.pdf'' ''c.pdf'' fs1 of
              (r2, fs2) \<Rightarrow> r1 = Inr () \<and> r2 = Inr () \<and> fs2 ''c.pdf'' = fs1 ''b.pdf''))"
  using sanitize_idempotent[of pypdf
      "\<lparr>pages = [''p1'', ''p2''], info = [''/Author'' \<mapsto> ''A''], xmp = Some ''x''\<rparr>"
      "[''a.pdf'' \<mapsto> Pdf \<lparr>pages = [''p1'', ''p2''], info = [''/Author'' \<mapsto> ''A''],
                              xmp = Some ''x''\<rparr>]"
      "''a.pdf''" "''b.pdf''" "''c.pdf''"]
  by (simp split: prod.splits)

section \<open>Properties of the assembly operations\<close>

lemmas fs_eval =
  sanitize_output_def sanitize_try_def os_replace_def os_remove_def os_path_exists_def
  sanitize_pdf_no_metadata_def PdfReader_def safe_open_reader_def sanitized_eq
  PdfWriter_def add_page_def pypdf_def

text \<open>
  When the working name differs from the output path, the fallback does what the comment
  in the code says: if the sanitizer fails, the file written before the second pass is
  back at the output path and the working file is gone.
\<close>

lemma sanitize_output_fallback:
  assumes "str_replace ''.pdf'' ''.__tmp__.pdf'' out_path \<noteq> out_path"
    and "faults out_path \<noteq> NoFault"
  shows "sanitize_output lib faults out_path (fs(out_path \<mapsto> Pdf w)) out_path = Some (Pdf w)
       \<and> sanitize_output lib faults out_path (fs(out_path \<mapsto> Pdf w))
             (str_replace ''.pdf'' ''.__tmp__.pdf'' out_path) = None"
  using assms
  by (cases "faults out_path")
     (auto simp: sanitize_output_def sanitize_try_def os_replace_def os_remove_def
        os_path_exists_def sanitize_pdf_no_metadata_def PdfReader_def Let_def)

lemma sanitize_output_success:
  assumes "str_replace ''.pdf'' ''.__tmp__.pdf'' out_path \<noteq> out_path"
    and "faults out_path = NoFault"
  shows "sanitize_output lib faults out_path (fs(out_path \<mapsto> Pdf w)) out_path
           = Some (Pdf (sanitized lib w))
       \<and> sanitize_output lib faults out_path (fs(out_path \<mapsto> Pdf w))
             (str_replace ''.pdf'' ''.__tmp__.pdf'' out_path) = None"
  using assms
  by (auto simp: sanitize_output_def sanitize_try_def os_replace_def os_remove_def
        os_path_exists_def sanitize_pdf_no_metadata_def PdfReader_def Let_def)

text \<open>
  Claim C5, at a concrete input: one two-page source is merged to the output path
  \<open>merged.PDF\<close>, and the sanitizer fails while writing. The path holds no \<open>.pdf\<close>, so the
  working name is the output path itself; the sanitizer has truncated the only copy, and
  what is left at the output path is not the merged document.
\<close>

theorem merge_serial_fallback_lost:
  "str_replace ''.pdf'' ''.__tmp__.pdf'' ''merged.PDF'' = ''merged.PDF''
   \<and> (case merge_serial pypdf (\<lambda>p. WriteFails) [''a.pdf''] ''merged.PDF''
             [''a.pdf'' \<mapsto> Pdf \<lparr>pages = [''p1'', ''p2''], info = Map.empty, xmp = None\<rparr>] of
        (shown, fs') \<Rightarrow> shown = Saved \<and> fs' ''merged.PDF'' = Some Unreadable)"
  by (simp add: merge_serial_def fs_eval)

text \<open>
  On the same path, when the sanitizer succeeds, \<open>os.remove(tmp2)\<close> removes the output.
\<close>

lemma merge_serial_output_removed:
  "(case merge_serial pypdf (\<lambda>p. NoFault) [''a.pdf''] ''merged.PDF''
             [''a.pdf'' \<mapsto> Pdf \<lparr>pages = [''p1'', ''p2''], info = Map.empty, xmp = None\<rparr>] of
        (shown, fs') \<Rightarrow> shown = Saved \<and> fs' ''merged.PDF'' = None)"
  by (simp add: merge_serial_def fs_eval)

text \<open>
  What the guards of the operations do test is what the user entered: merging warns and
  stops when no source is listed, extraction and deletion when the list box is empty or
  when the range expression resolves to no index; in each case nothing is written.
\<close>

lemma input_guards:
  "merge_serial lib faults [] out_path fs = (Warned, fs)
   \<and> extract_pages_dialog lib faults [] sel ranges out_path fs = (Warned, fs)
   \<and> delete_pages_dialog lib faults [] sel ranges out_path fs = (Warned, fs)
   \<and> (items \<noteq> [] \<and> length sel = 1 \<and> py_index items (sel ! 0) = Inr p
        \<and> safe_open_reader fs p = Some reader
        \<and> parse_page_ranges ranges_str (int (length (pages reader))) = Inr []
      \<longrightarrow> extract_pages_dialog lib faults items sel (Some ranges_str) out_path fs = (Warned, fs)
          \<and> delete_pages_dialog lib faults items sel (Some ranges_str) out_path fs = (Warned, fs))"
  by (simp add: merge_serial_def extract_pages_dialog_def delete_pages_dialog_def)

text \<open>
  Claim C7, at a concrete input: every page of a three-page document is named for
  deletion. The index set leaves no page to write, but the set of pages to delete is not
  empty, so the guard lets it pass: no warning is shown, a PDF with no page is written to
  the output path and the success message appears.
\<close>

theorem delete_all_pages_writes_empty:
  "parse_page_ranges ''1-3'' 3 = Inr [0, 1, 2]
   \<and> fst (delete_pages_dialog pypdf (\<lambda>p. NoFault) [''a.pdf''] [0] (Some ''1-3'')
          ''deleted_a.pdf''
          [''a.pdf'' \<mapsto> Pdf \<lparr>pages = [''p1'', ''p2'', ''p3''], info = Map.empty,
                                 xmp = None\<rparr>]) = Saved
   \<and> snd (delete_pages_dialog pypdf (\<lambda>p. NoFault) [''a.pdf''] [0] (Some ''1-3'')
          ''deleted_a.pdf''
          [''a.pdf'' \<mapsto> Pdf \<lparr>pages = [''p1'', ''p2'', ''p3''], info = Map.empty,
                                 xmp = None\<rparr>]) ''deleted_a.pdf''
       = Some (Pdf \<lparr>pages = [], info = [''/Producer'' \<mapsto> ''pypdf''], xmp = None\<rparr>)"
  by (simp add: delete_pages_dialog_def fs_eval parse_eval py_index_def add_reader_page_def)

text \<open>
  Two more operations write without a warning although nothing is selected: interleaving
  in mode \<open>alternate\<close> from page 5 on documents of 3 and 2 pages writes a PDF with no
  page, and rotation with the expression \<open>99\<close> on a two-page document resolves to no
  index, rotates nothing and writes a copy.
\<close>

lemma interleave_past_end_writes_empty:
  "fst (do_interleave pypdf (\<lambda>p. NoFault) ''a.pdf'' ''b.pdf'' ''alternate'' 5 ''out.pdf''
          [''a.pdf'' \<mapsto> Pdf \<lparr>pages = [''a1'', ''a2'', ''a3''], info = Map.empty, xmp = None\<rparr>,
           ''b.pdf'' \<mapsto> Pdf \<lparr>pages = [''b1'', ''b2''], info = Map.empty, xmp = None\<rparr>])
     = Saved
   \<and> snd (do_interleave pypdf (\<lambda>p. NoFault) ''a.pdf'' ''b.pdf'' ''alternate'' 5 ''out.pdf''
          [''a.pdf'' \<mapsto> Pdf \<lparr>pages = [''a1'', ''a2'', ''a3''], info = Map.empty, xmp = None\<rparr>,
           ''b.pdf'' \<mapsto> Pdf \<lparr>pages = [''b1'', ''b2''], info = Map.empty, xmp = None\<rparr>])
        ''out.pdf''
     = Some (Pdf \<lparr>pages = [], info = [''/Producer'' \<mapsto> ''pypdf''], xmp = None\<rparr>)"
  by (simp add: do_interleave_def fs_eval interleave_eval)

lemma rotate_dropped_range_writes_copy:
  "rotate_selection ''99'' 2 = Inr []
   \<and> fst (do_rotate pypdf (\<lambda>p. NoFault) (\<lambda>d (name, r). Inr (name, r + d)) ''a.pdf'' 90 ''99''
          ''rotated_a.pdf''
          [''a.pdf'' \<mapsto> Pdf \<lparr>pages = [(''p1'', 0), (''p2'', 0)], info = Map.empty,
                                 xmp = None\<rparr>]) = Saved
   \<and> snd (do_rotate pypdf (\<lambda>p. NoFault) (\<lambda>d (name, r). Inr (name, r + d)) ''a.pdf'' 90 ''99''
          ''rotated_a.pdf''
          [''a.pdf'' \<mapsto> Pdf \<lparr>pages = [(''p1'', 0), (''p2'', 0)], info = Map.empty,
                                 xmp = None\<rparr>]) ''rotated_a.pdf''
       = Some (Pdf \<lparr>pages = [(''p1'', 0), (''p2'', 0)],
                    info = [''/Producer'' \<mapsto> ''pypdf''], xmp = None\<rparr>)"
  by (simp add: do_rotate_def rotate_selection_def rotate_body_def rotate_page_def
        fs_eval parse_eval py_index_def)

text \<open>
  On the success path the working file is removed: after a conversion and a sanitizer
  pass that both succeed, nothing is left at the working name.
\<close>

lemma convert_ppt_item_success_cleans:
  assumes "office in_path = Inr d"
    and "faults (os_path_join out_dir (splitext_root (os_path_basename in_path) @ ''.pdf''))
           = NoFault"
    and "os_path_join out_dir (splitext_root (os_path_basename in_path) @ ''.__tmp__.pdf'')
           \<noteq> os_path_join out_dir (splitext_root (os_path_basename in_path) @ ''.pdf'')"
  shows "fst (convert_ppt_item lib faults office out_dir in_path fs) = Inr ()
       \<and> snd (convert_ppt_item lib faults office out_dir in_path fs)
             (os_path_join out_dir (splitext_root (os_path_basename in_path) @ ''.__tmp__.pdf''))
           = None
       \<and> snd (convert_ppt_item lib faults office out_dir in_path fs)
             (os_path_join out_dir (splitext_root (os_path_basename in_path) @ ''.pdf''))
           = Some (Pdf (sanitized lib d))"
  using assms
  by (simp add: convert_ppt_item_def Let_def sanitize_pdf_no_metadata_def PdfReader_def
        os_remove_def)

text \<open>
  Claim C6, at a concrete input: one presentation is converted and the sanitizer fails
  on the converter's output. The error is shown, and the working file
  \<open>out/deck.__tmp__.pdf\<close> is still there.
\<close>

theorem convert_ppt_leaves_tmp:
  "(case convert_ppt_dialog pypdf (\<lambda>p. WriteFails)
             (\<lambda>p. Inr \<lparr>pages = [''slide1''], info = Map.empty, xmp = None\<rparr>)
             [''deck.pptx''] ''out'' Map.empty of
        (shown, fs') \<Rightarrow>
          shown = ErrorShown OSError
          \<and> fs' ''out/deck.__tmp__.pdf'' =
              Some (Pdf \<lparr>pages = [''slide1''], info = Map.empty, xmp = None\<rparr>))"
  by (simp add: convert_ppt_dialog_def convert_ppt_item_def fs_eval os_path_join_def
        splitext_root_def os_path_basename_def)

end
